theory Spec2Isabelle
  imports Main
begin

section \<open>The no-sails rule of eslint-plugin-hireup\<close>

text \<open>
  A shallow embedding of \<^verbatim>\<open>src/index.js\<close>: the rule \<^verbatim>\<open>no-sails\<close>, its two helpers
  \<^verbatim>\<open>getStaticPropertyName\<close> and \<^verbatim>\<open>getVariableByName\<close>, and the option schema of the
  rule. The syntax tree and the scope graph come from the host (ESLint, eslint-scope);
  they are inputs here, with the fields the rule reads.
\<close>

subsection \<open>Syntax nodes\<close>

text \<open>
  The value of a numeric literal is a double that is neither negative (a sign is a unary
  expression around the literal) nor NaN. \<^verbatim>\<open>Number::toString\<close> of ECMAScript renders a
  finite double \<open>x\<close> other than zero from three integers: the shortest digits \<open>s\<close> that
  read back as \<open>x\<close>, their number \<open>k\<close>, and the position \<open>n\<close> of the decimal point,
  with \<open>s * 10 ^ (n - k)\<close> reading back as \<open>x\<close>. Finding \<open>s\<close> and \<open>n\<close> is floating-point
  arithmetic and stays with the host: \<open>NumFinite s n\<close> is the double given by them, with
  \<open>1 \<le> s\<close>, no zero at the end of \<open>s\<close>, and at most 17 digits. So \<^verbatim>\<open>100\<close>, \<^verbatim>\<open>1e2\<close> and
  \<^verbatim>\<open>0x64\<close> are \<open>NumFinite 1 3\<close>, \<^verbatim>\<open>1.5\<close> is \<open>NumFinite 15 1\<close>, \<^verbatim>\<open>1e21\<close> is
  \<open>NumFinite 1 22\<close>, and \<^verbatim>\<open>18446744073709551616\<close>, whose double is \<open>2 ^ 64\<close>, is
  \<open>NumFinite 18446744073709552 20\<close>. A literal too large for a double is \<open>NumInfinity\<close>.
\<close>

datatype number =
    NumZero
  | NumFinite nat int
  | NumInfinity

text \<open>
  The value of a \<^verbatim>\<open>Literal\<close> node. A regular expression carries the \<^verbatim>\<open>source\<close> and
  \<^verbatim>\<open>flags\<close> of its object.
\<close>

datatype literal_value =
    StrV string
  | NumV number
  | BoolV bool
  | NullV
  | BigIntV nat
  | RegExpV string string

record source_location =
  start_line :: nat
  start_column :: nat
  end_line :: nat
  end_column :: nat

text \<open>
  A template element: \<^verbatim>\<open>quasi.value.raw\<close> and \<^verbatim>\<open>quasi.value.cooked\<close>. The cooked
  text of an untagged template is always a string.
\<close>

record template_element =
  raw :: string
  cooked :: string

text \<open>
  A node has a type tag, a source location and the children of its type. \<open>nid\<close> is the
  identity of the node object: \<^verbatim>\<open>a === b\<close> on two nodes is \<open>nid a = nid b\<close>. The six
  types the rule distinguishes are constructors; \<open>OtherNode\<close> is a node of any other
  type (a call, a binary expression, a tagged template, ...).
\<close>

datatype node =
    Identifier (nid: nat) (loc: source_location) (name: string)
  | Literal (nid: nat) (loc: source_location) (val: literal_value)
  | TemplateLiteral (nid: nat) (loc: source_location)
      (expressions: "node list") (quasis: "template_element list")
  | MemberExpression (nid: nat) (loc: source_location)
      (object: node) (property: node) (computed: bool)
  | Property (nid: nat) (loc: source_location) (key: node) (computed: bool)
  | MethodDefinition (nid: nat) (loc: source_location) (key: node) (computed: bool)
  | OtherNode (nid: nat) (loc: source_location)

subsection \<open>Scopes, variables and references\<close>

text \<open>
  A reference of eslint-scope: its identifier node, and the parent link of that node
  (\<^verbatim>\<open>reference.identifier.parent\<close>), which a tree cannot hold inside the child. The
  identifier of a reference is never null, and an identifier always has a parent.
\<close>

record reference =
  ident :: node
  ident_parent :: node

datatype def_type =
    CatchClause | ClassName | FunctionName | ImplicitGlobalVariable
  | ImportBinding | Parameter | Variable

record variable =
  var_name :: string
  defs :: "def_type list"
  references :: "reference list"

text \<open>A scope: \<^verbatim>\<open>scope.set\<close> (a Map from names to variables), \<^verbatim>\<open>scope.upper\<close> and
  \<^verbatim>\<open>scope.through\<close>.\<close>

datatype scope =
  Scope (scope_set: "string \<rightharpoonup> variable") (upper: "scope option")
    (through: "reference list")

subsection \<open>Helpers\<close>

text \<open>The decimal digits of a natural number, most significant first.\<close>

definition digit :: "nat \<Rightarrow> char" where
  "digit d = ''0123456789'' ! (d mod 10)"

fun decimal :: "nat \<Rightarrow> string" where
  "decimal n = (if n < 10 then [digit n] else decimal (n div 10) @ [digit (n mod 10)])"

declare decimal.simps [simp del]



text \<open>
  \<^verbatim>\<open>Number::toString(x)\<close> in radix 10, from the digits and the point: with the point
  between -5 and 21, the digits followed by zeros, or split by the point, or after
  \<^verbatim>\<open>0.\<close> and zeros; otherwise the exponent form.
\<close>

fun Number_toString :: "number \<Rightarrow> string" where
  "Number_toString NumZero = ''0''"
| "Number_toString NumInfinity = ''Infinity''"
| "Number_toString (NumFinite s n) =
     (let ds = decimal s; k = int (length ds) in
      if - 5 \<le> n \<and> n \<le> 21 then
        (if k \<le> n then ds @ replicate (nat (n - k)) (CHR ''0'')
         else if 0 < n then take (nat n) ds @ ''.'' @ drop (nat n) ds
         else ''0.'' @ replicate (nat (- n)) (CHR ''0'') @ ds)
      else
        (let e = n - 1;
             exponentSign = (if e < 0 then ''-'' else ''+'');
             exponent = decimal (nat \<bar>e\<bar>) in
         if k = 1 then ds @ ''e'' @ exponentSign @ exponent
         else take 1 ds @ ''.'' @ drop 1 ds @ ''e'' @ exponentSign @ exponent))"

text \<open>\<^verbatim>\<open>String(value)\<close> on the value of a literal.\<close>

fun js_String :: "literal_value \<Rightarrow> string" where
  "js_String (StrV s) = s"
| "js_String (NumV x) = Number_toString x"
| "js_String (BoolV b) = (if b then ''true'' else ''false'')"
| "js_String NullV = ''null''"
| "js_String (BigIntV n) = decimal n"
| "js_String (RegExpV src flags) = ''/'' @ src @ ''/'' @ flags"

text \<open>
  \<^verbatim>\<open>getStaticPropertyName(node)\<close>: \<open>None\<close> is \<^verbatim>\<open>null\<close>. The first switch selects the
  key; it leaves \<^verbatim>\<open>prop\<close> undefined (\<open>None\<close>) for a null node and for every other type.
  Where the second switch reads \<^verbatim>\<open>node.computed\<close> the key is an identifier, so the
  node is one of the three types that have the field.
\<close>

fun key_of :: "node option \<Rightarrow> node option" where
  "key_of (Some (Property _ _ k _)) = Some k"
| "key_of (Some (MethodDefinition _ _ k _)) = Some k"
| "key_of (Some (MemberExpression _ _ _ p _)) = Some p"
| "key_of _ = None"

fun getStaticPropertyName :: "node option \<Rightarrow> string option" where
  "getStaticPropertyName node =
     (case key_of node of
        Some (Literal _ _ v) \<Rightarrow> Some (js_String v)
      | Some (TemplateLiteral _ _ es qs) \<Rightarrow>
          (if length es = 0 \<and> length qs = 1 then Some (cooked (qs ! 0)) else None)
      | Some (Identifier _ _ n) \<Rightarrow>
          (if \<not> computed (the node) then Some n else None)
      | _ \<Rightarrow> None)"

text \<open>\<^verbatim>\<open>getVariableByName(initScope, name)\<close>: the loop over \<^verbatim>\<open>scope.upper\<close>.\<close>

fun getVariableByName :: "scope option \<Rightarrow> string \<Rightarrow> variable option" where
  "getVariableByName None nm = None"
| "getVariableByName (Some (Scope vars up thr)) nm =
     (case vars nm of
        Some v \<Rightarrow> Some v
      | None \<Rightarrow> getVariableByName up nm)"

subsection \<open>The rule\<close>

text \<open>
  A diagnostic given to \<^verbatim>\<open>context.report\<close>: the node, its location, the message id
  and the data \<^verbatim>\<open>{ propertyName }\<close>, where \<open>None\<close> is \<^verbatim>\<open>null\<close>.
\<close>

record diagnostic =
  node :: node
  d_loc :: source_location
  messageId :: string
  propertyName :: "string option"

text \<open>\<^verbatim>\<open>meta.messages\<close>: the message templates by id.\<close>

definition messages :: "(string \<times> string) list" where
  "messages = [(''unexpected'', ''Unexpected sails.{{propertyName}}'')]"

text \<open>
  \<^verbatim>\<open>isSails(reference)\<close>. The identifier of a reference is never null, so the guard
  \<^verbatim>\<open>id &&\<close> always passes; a node without a name has the name \<^verbatim>\<open>undefined\<close>, which
  is not the string.
\<close>

definition isSails :: "reference \<Rightarrow> bool" where
  "isSails r = (case ident r of Identifier _ _ n \<Rightarrow> n = ''sails'' | _ \<Rightarrow> False)"

text \<open>
  \<^verbatim>\<open>isAllowed(node)\<close>, as the truth value of
  \<^verbatim>\<open>propertyName && allowed.indexOf(propertyName) !== -1\<close>: \<^verbatim>\<open>null\<close> and the empty
  string are falsy, and then the list is not looked at. \<open>allowed\<close> is the array of
  strings that the option schema lets through; \<open>isAllowed_json\<close> below is the same
  function on an \<^verbatim>\<open>allowed\<close> of any shape.
\<close>

definition isAllowed :: "string list \<Rightarrow> node \<Rightarrow> bool" where
  "isAllowed allowed n =
     (case getStaticPropertyName (Some n) of
        None \<Rightarrow> False
      | Some p \<Rightarrow> p \<noteq> [] \<and> p \<in> set allowed)"

text \<open>\<^verbatim>\<open>isMemberAccessExceptAllowed(reference)\<close>.\<close>

definition isMemberAccessExceptAllowed :: "string list \<Rightarrow> reference \<Rightarrow> bool" where
  "isMemberAccessExceptAllowed allowed r =
     (let n = ident r; p = ident_parent r in
      (case p of
         MemberExpression _ _ obj _ _ \<Rightarrow> nid obj = nid n \<and> \<not> isAllowed allowed p
       | _ \<Rightarrow> False))"

text \<open>
  \<^verbatim>\<open>report(reference)\<close>: \<^verbatim>\<open>context.report\<close> adds one diagnostic to those the host has
  collected so far, the state that is passed through.
\<close>

definition report :: "reference \<Rightarrow> diagnostic list \<Rightarrow> diagnostic list" where
  "report r reported =
     (let n = ident_parent r; p = getStaticPropertyName (Some n) in
      reported @ [\<lparr>node = n, d_loc = loc n, messageId = ''unexpected'', propertyName = p\<rparr>])"

text \<open>
  The handler of \<^verbatim>\<open>Program:exit\<close>, on the scope that \<^verbatim>\<open>context.getScope()\<close> returns.
  \<^verbatim>\<open>forEach(report)\<close> is a fold over the filtered references, in their order.
\<close>

definition consoleVar :: "scope \<Rightarrow> variable option" where
  "consoleVar sc = getVariableByName (Some sc) ''sails''"

definition shadowed :: "scope \<Rightarrow> bool" where
  "shadowed sc = (case consoleVar sc of None \<Rightarrow> False | Some v \<Rightarrow> length (defs v) > 0)"

definition sails_references :: "scope \<Rightarrow> reference list" where
  "sails_references sc =
     (case consoleVar sc of
        Some v \<Rightarrow> references v
      | None \<Rightarrow> filter isSails (through sc))"

definition Program_exit :: "string list \<Rightarrow> scope \<Rightarrow> diagnostic list \<Rightarrow> diagnostic list" where
  "Program_exit allowed sc reported =
     (if \<not> shadowed sc
      then fold report (filter (isMemberAccessExceptAllowed allowed) (sails_references sc)) reported
      else reported)"

subsection \<open>The options and their schema\<close>

text \<open>
  The options of a rule are JSON values. Numbers are integers here; the rule only asks
  whether one is zero.
\<close>

datatype json =
    JNull
  | JBool bool
  | JNumber int
  | JString string
  | JArray "json list"
  | JObject "(string \<times> json) list"

datatype json_type = TObject | TArray | TString | TNumber | TBoolean | TNull

text \<open>
  A JSON schema with the keywords that \<^verbatim>\<open>meta.schema\<close> uses. An absent keyword is
  \<open>None\<close>, the empty list, or the default of JSON Schema (\<^verbatim>\<open>uniqueItems\<close> false,
  \<^verbatim>\<open>additionalProperties\<close> true).
\<close>

datatype schema =
  Schema (s_type: "json_type option") (s_properties: "(string \<times> schema) list")
    (s_items: "schema option") (s_minItems: "nat option") (s_uniqueItems: bool)
    (s_additionalProperties: bool)

fun has_type :: "json_type \<Rightarrow> json \<Rightarrow> bool" where
  "has_type TObject v = (case v of JObject _ \<Rightarrow> True | _ \<Rightarrow> False)"
| "has_type TArray v = (case v of JArray _ \<Rightarrow> True | _ \<Rightarrow> False)"
| "has_type TString v = (case v of JString _ \<Rightarrow> True | _ \<Rightarrow> False)"
| "has_type TNumber v = (case v of JNumber _ \<Rightarrow> True | _ \<Rightarrow> False)"
| "has_type TBoolean v = (case v of JBool _ \<Rightarrow> True | _ \<Rightarrow> False)"
| "has_type TNull v = (case v of JNull \<Rightarrow> True | _ \<Rightarrow> False)"

text \<open>
  Validation as JSON Schema defines it: \<^verbatim>\<open>properties\<close> constrains the members that are
  present, \<^verbatim>\<open>additionalProperties: false\<close> refuses every other member, \<^verbatim>\<open>items\<close>,
  \<^verbatim>\<open>minItems\<close> and \<^verbatim>\<open>uniqueItems\<close> constrain an array and nothing else.
\<close>

fun valid :: "schema \<Rightarrow> json \<Rightarrow> bool" where
  "valid (Schema t props items minI uniq addl) v =
     ((case t of None \<Rightarrow> True | Some ty \<Rightarrow> has_type ty v) \<and>
      (case v of
         JObject kvs \<Rightarrow>
           (\<forall>ks \<in> set props.
              case map_of kvs (fst ks) of None \<Rightarrow> True | Some x \<Rightarrow> valid (snd ks) x) \<and>
           (addl \<or> (\<forall>k \<in> set (map fst kvs). k \<in> set (map fst props)))
       | JArray vs \<Rightarrow>
           (case items of None \<Rightarrow> True | Some s \<Rightarrow> \<forall>x \<in> set vs. valid s x) \<and>
           (case minI of None \<Rightarrow> True | Some m \<Rightarrow> m \<le> length vs) \<and>
           (uniq \<longrightarrow> distinct vs)
       | _ \<Rightarrow> True))"

text \<open>\<^verbatim>\<open>meta.schema\<close>, as the source writes it.\<close>

definition allow_schema :: schema where
  "allow_schema =
     Schema (Some TArray) [] (Some (Schema (Some TString) [] None None False True))
       (Some 1) True True"

definition meta_schema :: "schema list" where
  "meta_schema = [Schema (Some TObject) [(''allow'', allow_schema)] None None False False]"

text \<open>
  The host reads a schema that is an array as a tuple: the options are an array no
  longer than the schema, and the option at each position validates against the schema
  at that position.
\<close>

definition options_valid :: "schema list \<Rightarrow> json list \<Rightarrow> bool" where
  "options_valid schemas opts =
     (length opts \<le> length schemas \<and> list_all (\<lambda>(s, v). valid s v) (zip schemas opts))"

text \<open>
  The first two lines of \<^verbatim>\<open>create\<close>: \<^verbatim>\<open>context.options[0] || {}\<close> and
  \<^verbatim>\<open>options.allow || []\<close>. A missing element or member is \<^verbatim>\<open>undefined\<close>, which is
  falsy, as are \<^verbatim>\<open>null\<close>, \<^verbatim>\<open>false\<close>, zero and the empty string.
\<close>

fun truthy :: "json \<Rightarrow> bool" where
  "truthy JNull = False"
| "truthy (JBool b) = b"
| "truthy (JNumber i) = (i \<noteq> 0)"
| "truthy (JString s) = (s \<noteq> [])"
| "truthy (JArray _) = True"
| "truthy (JObject _) = True"

definition create_options :: "json list \<Rightarrow> json" where
  "create_options opts =
     (case opts of
        [] \<Rightarrow> JObject []
      | v # _ \<Rightarrow> if truthy v then v else JObject [])"

fun member_allow :: "json \<Rightarrow> json option" where
  "member_allow (JObject kvs) = map_of kvs ''allow''"
| "member_allow _ = None"

definition create_allowed :: "json list \<Rightarrow> json" where
  "create_allowed opts =
     (case member_allow (create_options opts) of
        None \<Rightarrow> JArray []
      | Some v \<Rightarrow> if truthy v then v else JArray [])"

text \<open>
  The rule on an \<^verbatim>\<open>allowed\<close> of any shape, as \<^verbatim>\<open>create\<close> gets it from options that need
  not validate. \<^verbatim>\<open>allowed.indexOf(propertyName) !== -1\<close> looks for an element that is
  \<^verbatim>\<open>===\<close> to the name when \<^verbatim>\<open>allowed\<close> is an array, looks for the name as a substring
  when \<^verbatim>\<open>allowed\<close> is a string, and throws a TypeError for every other value, which has
  no method \<^verbatim>\<open>indexOf\<close>.
\<close>

datatype error = TypeError

fun substring :: "string \<Rightarrow> string \<Rightarrow> bool" where
  "substring p [] = (p = [])"
| "substring p (c # cs) = (take (length p) (c # cs) = p \<or> substring p cs)"

fun indexOf_found :: "json \<Rightarrow> string \<Rightarrow> error + bool" where
  "indexOf_found (JArray vs) p = Inr (JString p \<in> set vs)"
| "indexOf_found (JString s) p = Inr (substring p s)"
| "indexOf_found _ p = Inl TypeError"

definition isAllowed_json :: "json \<Rightarrow> node \<Rightarrow> error + bool" where
  "isAllowed_json allowed n =
     (case getStaticPropertyName (Some n) of
        None \<Rightarrow> Inr False
      | Some p \<Rightarrow> if p = [] then Inr False else indexOf_found allowed p)"

definition isMemberAccessExceptAllowed_json :: "json \<Rightarrow> reference \<Rightarrow> error + bool" where
  "isMemberAccessExceptAllowed_json allowed r =
     (let n = ident r; p = ident_parent r in
      (case p of
         MemberExpression _ _ obj _ _ \<Rightarrow>
           if nid obj = nid n
           then (case isAllowed_json allowed p of Inl e \<Rightarrow> Inl e | Inr b \<Rightarrow> Inr (\<not> b))
           else Inr False
       | _ \<Rightarrow> Inr False))"

text \<open>\<^verbatim>\<open>filter\<close> with a callback that can throw: the first exception ends it.\<close>

fun filter_json :: "('a \<Rightarrow> error + bool) \<Rightarrow> 'a list \<Rightarrow> error + 'a list" where
  "filter_json f [] = Inr []"
| "filter_json f (x # xs) =
     (case f x of
        Inl e \<Rightarrow> Inl e
      | Inr b \<Rightarrow>
          (case filter_json f xs of
             Inl e \<Rightarrow> Inl e
           | Inr ys \<Rightarrow> Inr (if b then x # ys else ys)))"

definition Program_exit_json ::
  "json \<Rightarrow> scope \<Rightarrow> diagnostic list \<Rightarrow> error + diagnostic list" where
  "Program_exit_json allowed sc reported =
     (if \<not> shadowed sc
      then (case filter_json (isMemberAccessExceptAllowed_json allowed) (sails_references sc) of
              Inl e \<Rightarrow> Inl e
            | Inr rs \<Rightarrow> Inr (fold report rs reported))
      else Inr reported)"

text \<open>\<^verbatim>\<open>create(context)\<close>: the handler of \<^verbatim>\<open>Program:exit\<close> for the options of the context.\<close>

definition create :: "json list \<Rightarrow> scope \<Rightarrow> diagnostic list \<Rightarrow> error + diagnostic list" where
  "create opts = Program_exit_json (create_allowed opts)"

text \<open>
  The strings among the elements of an array. When \<^verbatim>\<open>allowed\<close> is an array, a name is
  found in it exactly when it is one of these strings, and the rule is \<open>Program_exit\<close>
  on them (\<open>Program_exit_json_array\<close> below). Options that validate always give an
  array of strings.
\<close>

definition allowed_strings :: "json list \<Rightarrow> string list" where
  "allowed_strings vs = concat (map (\<lambda>v. case v of JString s \<Rightarrow> [s] | _ \<Rightarrow> []) vs)"

text \<open>
  The diagnostics that \<^verbatim>\<open>references.filter(isMemberAccessExceptAllowed).forEach(report)\<close>
  adds for a list of references.
\<close>

abbreviation reports ::
  "string list \<Rightarrow> reference list \<Rightarrow> diagnostic list \<Rightarrow> diagnostic list" where
  "reports allowed rs \<equiv> fold report (filter (isMemberAccessExceptAllowed allowed) rs)"

subsection \<open>Example programs\<close>

text \<open>
  One use of \<^verbatim>\<open>sails\<close> as the object of a member access with key \<open>k\<close>, written
  \<^verbatim>\<open>sails.k\<close> (\<open>c\<close> false) or \<^verbatim>\<open>sails[k]\<close> (\<open>c\<close> true), and three scopes around uses:
  a global scope where \<^verbatim>\<open>sails\<close> is unknown and its uses fall through, a global scope
  that holds a variable \<^verbatim>\<open>sails\<close> with the given definitions (none for a global that the
  configuration declares) and uses, and a module scope whose upper scope is such a scope.
\<close>

definition l0 :: source_location where
  "l0 = \<lparr>start_line = 1, start_column = 0, end_line = 1, end_column = 10\<rparr>"

definition sails_id :: node where
  "sails_id = Identifier 1 l0 ''sails''"

definition access :: "node \<Rightarrow> bool \<Rightarrow> node" where
  "access k c = MemberExpression 2 l0 sails_id k c"

definition use :: "node \<Rightarrow> bool \<Rightarrow> reference" where
  "use k c = \<lparr>ident = sails_id, ident_parent = access k c\<rparr>"

definition global_scope :: "reference list \<Rightarrow> scope" where
  "global_scope rs = Scope Map.empty None rs"

definition declared_scope :: "def_type list \<Rightarrow> reference list \<Rightarrow> scope" where
  "declared_scope ds rs =
     Scope [''sails'' \<mapsto> \<lparr>var_name = ''sails'', defs = ds, references = rs\<rparr>] None []"

definition module_scope :: "def_type list \<Rightarrow> reference list \<Rightarrow> scope" where
  "module_scope ds rs = Scope Map.empty (Some (declared_scope ds rs)) []"

section \<open>Auxiliary facts\<close>

lemmas eval_defs =
  Program_exit_def shadowed_def consoleVar_def sails_references_def global_scope_def
  declared_scope_def module_scope_def use_def access_def sails_id_def isSails_def
  isMemberAccessExceptAllowed_def isAllowed_def report_def Let_def

lemma decimal_small: "n < 10 \<Longrightarrow> decimal n = [digit n]"
  by (subst decimal.simps) simp

lemma decimal_large: "\<not> n < 10 \<Longrightarrow> decimal n = decimal (n div 10) @ [digit (n mod 10)]"
  by (subst decimal.simps) simp


text \<open>Reporting only appends: what was reported before stays in front, untouched.\<close>

lemma fold_report_from: "fold report rs reported = reported @ fold report rs []"
proof (induction rs arbitrary: reported)
  case Nil
  show ?case by simp
next
  case (Cons r rs)
  have "fold report (r # rs) reported = fold report rs (report r reported)" by simp
  also have "\<dots> = report r reported @ fold report rs []" by (rule Cons.IH)
  also have "\<dots> = reported @ (report r [] @ fold report rs [])"
    by (simp add: report_def Let_def)
  also have "report r [] @ fold report rs [] = fold report rs (report r [])"
    by (rule Cons.IH [symmetric])
  finally show ?case by simp
qed

lemma fold_report_map:
  "fold report rs reported =
     reported @ map (\<lambda>r. \<lparr>node = ident_parent r, d_loc = loc (ident_parent r),
       messageId = ''unexpected'',
       propertyName = getStaticPropertyName (Some (ident_parent r))\<rparr>) rs"
  by (induction rs arbitrary: reported) (simp_all add: report_def Let_def)

lemma reports_split:
  "reports allowed (rs1 @ r # rs2) reported =
     reports allowed rs1 reported @ reports allowed [r] [] @ reports allowed rs2 []"
proof -
  have "reports allowed (rs1 @ r # rs2) reported
        = reports allowed rs2 (reports allowed [r] (reports allowed rs1 reported))"
    by simp
  also have "\<dots> = reports allowed [r] (reports allowed rs1 reported) @ reports allowed rs2 []"
    by (rule fold_report_from)
  also have "reports allowed [r] (reports allowed rs1 reported)
        = reports allowed rs1 reported @ reports allowed [r] []"
    by (rule fold_report_from)
  finally show ?thesis by simp
qed

text \<open>What the two schemas of \<^verbatim>\<open>meta.schema\<close> accept.\<close>

lemma all_strings:
  "(\<forall>x \<in> set vs. has_type TString x) \<longleftrightarrow> (\<exists>xs. vs = map JString xs)"
proof (induction vs)
  case Nil
  show ?case by simp
next
  case (Cons v vs)
  show ?case
  proof
    assume a: "\<forall>x \<in> set (v # vs). has_type TString x"
    then obtain s where s: "v = JString s" by (cases v) auto
    from a Cons.IH obtain xs where "vs = map JString xs" by auto
    with s have "v # vs = map JString (s # xs)" by simp
    then show "\<exists>xs. v # vs = map JString xs" ..
  next
    assume "\<exists>xs. v # vs = map JString xs"
    then show "\<forall>x \<in> set (v # vs). has_type TString x" by auto
  qed
qed

lemma distinct_strings: "distinct (map JString xs) = distinct xs"
  by (simp add: distinct_map inj_on_def)

lemma valid_allow_schema:
  "valid allow_schema a \<longleftrightarrow> (\<exists>xs. a = JArray (map JString xs) \<and> xs \<noteq> [] \<and> distinct xs)"
proof (cases a)
  case (JArray vs)
  have "valid allow_schema a \<longleftrightarrow>
        (\<forall>x \<in> set vs. has_type TString x) \<and> 1 \<le> length vs \<and> distinct vs"
    using JArray by (auto simp: allow_schema_def split: json.splits)
  also have "\<dots> \<longleftrightarrow> (\<exists>xs. vs = map JString xs \<and> xs \<noteq> [] \<and> distinct xs)"
  proof
    assume h: "(\<forall>x \<in> set vs. has_type TString x) \<and> 1 \<le> length vs \<and> distinct vs"
    then obtain xs where xs: "vs = map JString xs" using all_strings by blast
    with h have "xs \<noteq> []" "distinct xs" by (auto simp: distinct_strings)
    with xs show "\<exists>xs. vs = map JString xs \<and> xs \<noteq> [] \<and> distinct xs" by blast
  next
    assume "\<exists>xs. vs = map JString xs \<and> xs \<noteq> [] \<and> distinct xs"
    then obtain xs where xs: "vs = map JString xs" "xs \<noteq> []" "distinct xs" by blast
    then have "\<forall>x \<in> set vs. has_type TString x" using all_strings by blast
    moreover have "1 \<le> length vs" using xs by (cases xs) simp_all
    moreover have "distinct vs" using xs by (simp add: distinct_strings)
    ultimately show "(\<forall>x \<in> set vs. has_type TString x) \<and> 1 \<le> length vs \<and> distinct vs"
      by blast
  qed
  finally show ?thesis using JArray by simp
qed (auto simp: allow_schema_def)

lemma valid_options_schema:
  "valid (Schema (Some TObject) [(''allow'', allow_schema)] None None False False) v \<longleftrightarrow>
     (\<exists>kvs. v = JObject kvs \<and> (\<forall>k \<in> set (map fst kvs). k = ''allow'') \<and>
        (\<forall>a. map_of kvs ''allow'' = Some a \<longrightarrow> valid allow_schema a))"
  by (cases v) (auto split: option.splits)

lemma options_valid_meta_schema:
  "options_valid meta_schema opts \<longleftrightarrow>
     (opts = [] \<or> (\<exists>v. opts = [v] \<and>
        valid (Schema (Some TObject) [(''allow'', allow_schema)] None None False False) v))"
proof (cases opts)
  case Nil
  then show ?thesis by (simp add: options_valid_def)
next
  case (Cons v vs)
  then show ?thesis by (cases vs) (simp_all add: options_valid_def meta_schema_def)
qed












lemma replicate_step: "0 < n \<Longrightarrow> replicate n x = x # replicate (n - 1) x"
  by (cases n) simp_all

text \<open>
  \<open>Number_toString\<close> on one number of each form: \<^verbatim>\<open>String(0)\<close>, \<^verbatim>\<open>String(100)\<close>,
  \<^verbatim>\<open>String(1.5)\<close>, \<^verbatim>\<open>String(12.345)\<close>, \<^verbatim>\<open>String(0.5)\<close>, \<^verbatim>\<open>String(0.000001)\<close>,
  \<^verbatim>\<open>String(1e-7)\<close>, \<^verbatim>\<open>String(1.5e-7)\<close>, \<^verbatim>\<open>String(123e18)\<close>, \<^verbatim>\<open>String(1.23e21)\<close> and
  \<^verbatim>\<open>String(1e999)\<close>.
\<close>

lemma Number_toString_examples:
  "Number_toString NumZero = ''0''"
  "Number_toString (NumFinite 1 3) = ''100''"
  "Number_toString (NumFinite 15 1) = ''1.5''"
  "Number_toString (NumFinite 12345 2) = ''12.345''"
  "Number_toString (NumFinite 5 0) = ''0.5''"
  "Number_toString (NumFinite 1 (- 5)) = ''0.000001''"
  "Number_toString (NumFinite 1 (- 6)) = ''1e-7''"
  "Number_toString (NumFinite 15 (- 6)) = ''1.5e-7''"
  "Number_toString (NumFinite 123 21) = ''123000000000000000000''"
  "Number_toString (NumFinite 123 22) = ''1.23e+21''"
  "Number_toString NumInfinity = ''Infinity''"
  by (simp_all add: Let_def decimal_small decimal_large digit_def replicate_step)

text \<open>
  On an array the rule on any \<^verbatim>\<open>allowed\<close> never throws, and is the rule on the strings
  of the array.
\<close>

lemma in_allowed_strings: "p \<in> set (allowed_strings vs) \<longleftrightarrow> JString p \<in> set vs"
  by (induction vs) (auto simp: allowed_strings_def split: json.splits)

lemma isAllowed_json_array:
  "isAllowed_json (JArray vs) n = Inr (isAllowed (allowed_strings vs) n)"
  by (simp add: isAllowed_json_def isAllowed_def in_allowed_strings split: option.splits)

lemma isMemberAccessExceptAllowed_json_array:
  "isMemberAccessExceptAllowed_json (JArray vs) r
     = Inr (isMemberAccessExceptAllowed (allowed_strings vs) r)"
  by (simp add: isMemberAccessExceptAllowed_json_def isMemberAccessExceptAllowed_def
      isAllowed_json_array Let_def split: node.splits)

lemma filter_json_total: "filter_json (\<lambda>x. Inr (P x)) xs = Inr (filter P xs)"
  by (induction xs) simp_all

lemma Program_exit_json_array:
  "Program_exit_json (JArray vs) sc reported = Inr (Program_exit (allowed_strings vs) sc reported)"
proof -
  have "isMemberAccessExceptAllowed_json (JArray vs)
      = (\<lambda>r. Inr (isMemberAccessExceptAllowed (allowed_strings vs) r))"
    by (rule ext) (rule isMemberAccessExceptAllowed_json_array)
  then show ?thesis
    by (simp add: Program_exit_json_def Program_exit_def filter_json_total)
qed

lemma allowed_strings_strings: "allowed_strings (map JString xs) = xs"
  by (induction xs) (simp_all add: allowed_strings_def)

section \<open>The claims\<close>

subsection \<open>C1: a declared \<^verbatim>\<open>sails\<close> silences the rule\<close>

text \<open>
  C1. When the walk up the scope chain finds a variable named \<^verbatim>\<open>sails\<close> and that variable
  has one or more definitions, the handler reports nothing: the diagnostics after the run
  are those before it, whatever the allow-list holds.
\<close>

theorem shadowed_no_diagnostic:
  assumes "getVariableByName (Some sc) ''sails'' = Some v"
    and "1 \<le> length (defs v)"
  shows "Program_exit allowed sc reported = reported"
proof -
  have "shadowed sc"
    using assms by (cases "defs v") (simp_all add: shadowed_def consoleVar_def)
  then show ?thesis
    by (simp add: Program_exit_def)
qed

theorem shadowed_no_diagnostic_witness:
  "getVariableByName
       (Some (declared_scope [Variable] [use (Identifier 3 l0 ''hook'') False])) ''sails''
     = Some \<lparr>var_name = ''sails'', defs = [Variable],
              references = [use (Identifier 3 l0 ''hook'') False]\<rparr>
   \<and> Program_exit [] (declared_scope [Variable] [use (Identifier 3 l0 ''hook'') False]) [] = []"
proof -
  let ?v = "\<lparr>var_name = ''sails'', defs = [Variable],
              references = [use (Identifier 3 l0 ''hook'') False]\<rparr>"
  have f: "getVariableByName
       (Some (declared_scope [Variable] [use (Identifier 3 l0 ''hook'') False])) ''sails''
     = Some ?v"
    by (simp add: declared_scope_def)
  have d: "1 \<le> length (defs ?v)" by simp
  show ?thesis using f shadowed_no_diagnostic [OF f d, of "[]" "[]"] by simp
qed

subsection \<open>C2: a static name is reported unless it is allowed\<close>

text \<open>
  For a name that is not the empty string the rule does what C2 says: the reference adds
  one diagnostic carrying the name when the name is not in the allow-list, and none when
  it is.
\<close>

lemma static_name_reported_unless_allowed:
  assumes "\<not> shadowed sc"
    and "sails_references sc = rs1 @ r # rs2"
    and "ident_parent r = MemberExpression i l obj k c"
    and "nid obj = nid (ident r)"
    and "getStaticPropertyName (Some (ident_parent r)) = Some X"
    and "X \<noteq> ''''"
  shows "Program_exit allowed sc reported =
           reports allowed rs1 reported
           @ (if X \<in> set allowed then []
              else [\<lparr>node = ident_parent r, d_loc = l, messageId = ''unexpected'',
                     propertyName = Some X\<rparr>])
           @ reports allowed rs2 []"
proof -
  have "reports allowed [r] [] =
      (if X \<in> set allowed then []
       else [\<lparr>node = ident_parent r, d_loc = l, messageId = ''unexpected'',
              propertyName = Some X\<rparr>])"
    using assms(3-6)
    by (simp add: isMemberAccessExceptAllowed_def isAllowed_def report_def Let_def)
  then show ?thesis
    using assms(1,2) reports_split [of allowed rs1 r rs2 reported]
    by (simp add: Program_exit_def)
qed

text \<open>
  C2. A member access on \<^verbatim>\<open>sails\<close> with a static name in the allow-list should give no
  diagnostic. For the program \<^verbatim>\<open>sails[""]\<close> with the options \<^verbatim>\<open>[{ allow: [""] }]\<close>, which
  the schema accepts, the name is the empty string, the allow-list holds it, and the rule
  still reports the access.
\<close>

theorem allowed_empty_name_reported:
  "options_valid meta_schema [JObject [(''allow'', JArray [JString ''''])]]
   \<and> create_allowed [JObject [(''allow'', JArray [JString ''''])]] = JArray [JString '''']
   \<and> allowed_strings [JString ''''] = ['''']
   \<and> getStaticPropertyName (Some (access (Literal 3 l0 (StrV '''')) True)) = Some ''''
   \<and> create [JObject [(''allow'', JArray [JString ''''])]]
        (global_scope [use (Literal 3 l0 (StrV '''')) True]) [] =
       Inr [\<lparr>node = access (Literal 3 l0 (StrV '''')) True, d_loc = l0,
              messageId = ''unexpected'', propertyName = Some ''''\<rparr>]"
  by (simp add: options_valid_def meta_schema_def allow_schema_def create_def create_allowed_def
      create_options_def allowed_strings_def Program_exit_json_def
      isMemberAccessExceptAllowed_json_def isAllowed_json_def eval_defs)

subsection \<open>C3: an indeterminate name is always reported\<close>

text \<open>
  C3. When the binding is not shadowed and a reference to \<^verbatim>\<open>sails\<close> is the object of a
  member access whose key is not a literal, not a template with no expression and one
  segment, and not an identifier in a non-computed access, the reference adds exactly one
  diagnostic, between those of the references before it and those of the references
  after it, whatever the allow-list holds. Its property name is \<^verbatim>\<open>null\<close>.
\<close>

theorem indeterminate_reported:
  assumes "\<not> shadowed sc"
    and "sails_references sc = rs1 @ r # rs2"
    and "ident_parent r = MemberExpression i l obj k c"
    and "nid obj = nid (ident r)"
    and "\<forall>j m v. k \<noteq> Literal j m v"
    and "\<forall>j m es qs. k = TemplateLiteral j m es qs \<longrightarrow> es \<noteq> [] \<or> length qs \<noteq> 1"
    and "\<forall>j m x. k = Identifier j m x \<longrightarrow> c"
  shows "Program_exit allowed sc reported =
           reports allowed rs1 reported
           @ [\<lparr>node = ident_parent r, d_loc = l, messageId = ''unexpected'',
                propertyName = None\<rparr>]
           @ reports allowed rs2 []"
proof -
  have none: "getStaticPropertyName (Some (ident_parent r)) = None"
    using assms(3,5,6,7) by (cases k) auto
  have flagged: "isMemberAccessExceptAllowed allowed r"
    using assms(3,4) none by (simp add: isMemberAccessExceptAllowed_def isAllowed_def Let_def)
  have "reports allowed [r] [] =
      [\<lparr>node = ident_parent r, d_loc = l, messageId = ''unexpected'', propertyName = None\<rparr>]"
    using flagged none assms(3) by (simp add: report_def Let_def)
  then show ?thesis
    using assms(1,2) reports_split [of allowed rs1 r rs2 reported]
    by (simp add: Program_exit_def)
qed

theorem indeterminate_reported_witness:
  "\<not> shadowed (global_scope [use (Identifier 3 l0 ''key'') True])
   \<and> sails_references (global_scope [use (Identifier 3 l0 ''key'') True])
       = [] @ use (Identifier 3 l0 ''key'') True # []
   \<and> Program_exit [''key''] (global_scope [use (Identifier 3 l0 ''key'') True]) [] =
       [\<lparr>node = access (Identifier 3 l0 ''key'') True, d_loc = l0, messageId = ''unexpected'',
         propertyName = None\<rparr>]"
proof -
  let ?r = "use (Identifier 3 l0 ''key'') True"
  have a: "\<not> shadowed (global_scope [?r])" by (simp add: eval_defs)
  have b: "sails_references (global_scope [?r]) = [] @ ?r # []" by (simp add: eval_defs)
  have c: "ident_parent ?r = MemberExpression 2 l0 sails_id (Identifier 3 l0 ''key'') True"
    by (simp add: use_def access_def)
  have d: "nid sails_id = nid (ident ?r)" by (simp add: use_def)
  have e: "\<forall>j m v. Identifier 3 l0 ''key'' \<noteq> Literal j m v" by simp
  have f: "\<forall>j m es qs. Identifier 3 l0 ''key'' = TemplateLiteral j m es qs
             \<longrightarrow> es \<noteq> [] \<or> length qs \<noteq> 1"
    by simp
  have g: "\<forall>j m x. Identifier 3 l0 ''key'' = Identifier j m x \<longrightarrow> True" by simp
  show ?thesis
    using a b indeterminate_reported [OF a b c d e f g, of "[''key'']" "[]"]
    by (simp add: use_def)
qed

subsection \<open>C4: a literal key is coerced to a string\<close>




subsection \<open>C5: template keys\<close>

text \<open>
  C5. For a member access, a property or a method definition whose key is a template
  string, the extractor returns the cooked text of the first segment when the template
  has no embedded expression and exactly one segment, and \<^verbatim>\<open>null\<close> for every other
  template.
\<close>

theorem template_key_single_segment:
  assumes "n = MemberExpression i l obj t c \<or> n = Property i l t c
           \<or> n = MethodDefinition i l t c"
    and "t = TemplateLiteral j m es qs"
  shows "getStaticPropertyName (Some n) =
           (if es = [] \<and> length qs = 1 then Some (cooked (hd qs)) else None)"
proof (cases qs)
  case Nil
  then show ?thesis using assms by auto
next
  case (Cons q qs')
  then show ?thesis using assms by auto
qed

theorem template_key_single_segment_witness:
  "getStaticPropertyName
       (Some (access (TemplateLiteral 3 l0 [] [\<lparr>raw = ''b'', cooked = ''b''\<rparr>]) True))
     = Some ''b''
   \<and> getStaticPropertyName (Some (access (TemplateLiteral 3 l0 [Identifier 4 l0 ''b'']
         [\<lparr>raw = [], cooked = []\<rparr>, \<lparr>raw = [], cooked = []\<rparr>]) True)) = None"
  using
    template_key_single_segment
      [of "access (TemplateLiteral 3 l0 [] [\<lparr>raw = ''b'', cooked = ''b''\<rparr>]) True"
        2 l0 sails_id _ True 3 l0 "[]" "[\<lparr>raw = ''b'', cooked = ''b''\<rparr>]"]
    template_key_single_segment
      [of "access (TemplateLiteral 3 l0 [Identifier 4 l0 ''b'']
         [\<lparr>raw = [], cooked = []\<rparr>, \<lparr>raw = [], cooked = []\<rparr>]) True"
        2 l0 sails_id _ True 3 l0 "[Identifier 4 l0 ''b'']"
        "[\<lparr>raw = [], cooked = []\<rparr>, \<lparr>raw = [], cooked = []\<rparr>]"]
  by (simp add: access_def)

subsection \<open>C6: identifier keys\<close>

text \<open>
  C6. For a member access, a property or a method definition whose key is an identifier,
  the extractor returns the name of the identifier when the node is not computed and
  \<^verbatim>\<open>null\<close> when it is computed: it returns the name if and only if the access is
  non-computed.
\<close>

theorem identifier_key_non_computed:
  assumes "n = MemberExpression i l obj t c \<or> n = Property i l t c
           \<or> n = MethodDefinition i l t c"
    and "t = Identifier j m x"
  shows "getStaticPropertyName (Some n) = (if c then None else Some x)
       \<and> (getStaticPropertyName (Some n) = Some x \<longleftrightarrow> \<not> c)"
  using assms by auto

theorem identifier_key_non_computed_witness:
  "getStaticPropertyName (Some (access (Identifier 3 l0 ''b'') False)) = Some ''b''
   \<and> getStaticPropertyName (Some (access (Identifier 3 l0 ''b'') True)) = None
   \<and> getStaticPropertyName (Some (Property 5 l0 (Identifier 3 l0 ''b'') False)) = Some ''b''"
  using
    identifier_key_non_computed
      [of "access (Identifier 3 l0 ''b'') False" 2 l0 sails_id _ False 3 l0 "''b''"]
    identifier_key_non_computed
      [of "access (Identifier 3 l0 ''b'') True" 2 l0 sails_id _ True 3 l0 "''b''"]
    identifier_key_non_computed
      [of "Property 5 l0 (Identifier 3 l0 ''b'') False" 5 l0 sails_id _ False 3 l0 "''b''"]
  by (simp add: access_def)

subsection \<open>C7: the option schema\<close>

text \<open>
  C7, as the schema is written. The options are accepted exactly when they are empty, or
  are one object with no member other than \<^verbatim>\<open>allow\<close>, whose \<^verbatim>\<open>allow\<close>, when present, is an
  array of strings that has at least one element and no element twice; the strings
  themselves may be empty. Without options, and with an object that has no \<^verbatim>\<open>allow\<close>,
  the allow-list is the empty array; for all accepted options it is an array of distinct
  strings, and the handler that \<^verbatim>\<open>create\<close> builds never throws and is \<open>Program_exit\<close>
  on those strings.
\<close>

theorem schema_accepts:
  "(options_valid meta_schema opts \<longleftrightarrow>
      (opts = [] \<or>
       (\<exists>kvs. opts = [JObject kvs] \<and> (\<forall>k \<in> set (map fst kvs). k = ''allow'') \<and>
          (\<forall>a. map_of kvs ''allow'' = Some a \<longrightarrow>
             (\<exists>xs. a = JArray (map JString xs) \<and> xs \<noteq> [] \<and> distinct xs)))))
   \<and> create_allowed [] = JArray []
   \<and> create_allowed [JObject []] = JArray []
   \<and> (options_valid meta_schema opts \<longrightarrow>
        (\<exists>xs. create_allowed opts = JArray (map JString xs) \<and> distinct xs \<and>
           allowed_strings (map JString xs) = xs \<and>
           (\<forall>sc reported. create opts sc reported = Inr (Program_exit xs sc reported))))"
proof -
  have shape: "options_valid meta_schema opts \<longleftrightarrow>
      (opts = [] \<or>
       (\<exists>kvs. opts = [JObject kvs] \<and> (\<forall>k \<in> set (map fst kvs). k = ''allow'') \<and>
          (\<forall>a. map_of kvs ''allow'' = Some a \<longrightarrow>
             (\<exists>xs. a = JArray (map JString xs) \<and> xs \<noteq> [] \<and> distinct xs))))"
    unfolding options_valid_meta_schema valid_options_schema valid_allow_schema by auto
  have handler: "create opts sc reported = Inr (Program_exit xs sc reported)"
    if "create_allowed opts = JArray (map JString xs)" for xs sc reported
    using that by (simp add: create_def Program_exit_json_array allowed_strings_strings)
  have allowed: "\<exists>xs. create_allowed opts = JArray (map JString xs) \<and> distinct xs \<and>
           allowed_strings (map JString xs) = xs \<and>
           (\<forall>sc reported. create opts sc reported = Inr (Program_exit xs sc reported))"
    if v: "options_valid meta_schema opts"
  proof -
    from v shape consider "opts = []"
      | kvs where "opts = [JObject kvs]" "map_of kvs ''allow'' = None"
      | kvs xs where "opts = [JObject kvs]"
          "map_of kvs ''allow'' = Some (JArray (map JString xs))" "distinct xs"
      by (metis option.exhaust)
    then obtain xs where xs: "create_allowed opts = JArray (map JString xs)" "distinct xs"
    proof cases
      case 1
      have "create_allowed opts = JArray (map JString [])"
        using 1 by (simp add: create_allowed_def create_options_def)
      then show ?thesis using that [of "[]"] by simp
    next
      case 2
      have "create_allowed opts = JArray (map JString [])"
        using 2 by (simp add: create_allowed_def create_options_def)
      then show ?thesis using that [of "[]"] by simp
    next
      case 3
      have "create_allowed opts = JArray (map JString xs)"
        using 3 by (simp add: create_allowed_def create_options_def)
      then show ?thesis using that [of xs] 3(3) by simp
    qed
    then show ?thesis
      using handler [OF xs(1)] allowed_strings_strings [of xs] by blast
  qed
  have "create_allowed [] = JArray []" "create_allowed [JObject []] = JArray []"
    by (simp_all add: create_allowed_def create_options_def)
  with shape allowed show ?thesis by blast
qed

theorem schema_accepts_witness:
  "options_valid meta_schema [JObject [(''allow'', JArray [JString ''config'', JString ''log''])]]
   \<and> create_allowed [JObject [(''allow'', JArray [JString ''config'', JString ''log''])]]
        = JArray [JString ''config'', JString ''log'']
   \<and> allowed_strings [JString ''config'', JString ''log''] = [''config'', ''log'']
   \<and> create [JObject [(''allow'', JArray [JString ''config'', JString ''log''])]]
        (global_scope [use (Identifier 3 l0 ''config'') False]) [] = Inr []
   \<and> create_allowed [] = JArray []"
proof -
  let ?opts = "[JObject [(''allow'', JArray [JString ''config'', JString ''log''])]]"
  have "\<exists>kvs. ?opts = [JObject kvs] \<and> (\<forall>k \<in> set (map fst kvs). k = ''allow'') \<and>
          (\<forall>a. map_of kvs ''allow'' = Some a \<longrightarrow>
             (\<exists>xs. a = JArray (map JString xs) \<and> xs \<noteq> [] \<and> distinct xs))"
  proof -
    have "\<exists>xs. JArray [JString ''config'', JString ''log''] = JArray (map JString xs)
          \<and> xs \<noteq> [] \<and> distinct xs"
      by (rule exI [of _ "[''config'', ''log'']"]) simp
    then show ?thesis by simp
  qed
  then have v: "options_valid meta_schema ?opts"
    using schema_accepts [of ?opts] by blast
  have a: "create_allowed ?opts = JArray [JString ''config'', JString ''log'']"
    by (simp add: create_allowed_def create_options_def)
  from v schema_accepts [of ?opts] obtain xs where
    xs: "create_allowed ?opts = JArray (map JString xs)"
      "\<forall>sc reported. create ?opts sc reported = Inr (Program_exit xs sc reported)"
    by blast
  from xs(1) a have "map JString xs = map JString [''config'', ''log'']" by simp
  then have "xs = [''config'', ''log'']"
    by (auto simp: map_eq_Cons_conv)
  with xs(2) have "create ?opts (global_scope [use (Identifier 3 l0 ''config'') False]) []
      = Inr (Program_exit [''config'', ''log'']
          (global_scope [use (Identifier 3 l0 ''config'') False]) [])"
    by simp
  also have "\<dots> = Inr []" by (simp add: eval_defs)
  finally have c: "create ?opts (global_scope [use (Identifier 3 l0 ''config'') False]) [] = Inr []" .
  have "create_allowed [] = JArray []"
    using schema_accepts [of ?opts] by blast
  with v a c show ?thesis by (simp add: allowed_strings_def)
qed

text \<open>
  C7 as it is stated asks for non-empty strings. The schema accepts an allow-list whose
  only string is empty, and it refuses an allow-list with no element.
\<close>

theorem schema_accepts_empty_string:
  "options_valid meta_schema [JObject [(''allow'', JArray [JString ''''])]]
   \<and> \<not> options_valid meta_schema [JObject [(''allow'', JArray [])]]"
  by (simp add: options_valid_def meta_schema_def allow_schema_def)

subsection \<open>C8: the analysis is a function of its input\<close>

text \<open>
  C8. What a run adds to the diagnostics is fixed by the scope and the allow-list alone,
  and nothing of an earlier run enters it: from any earlier diagnostics, the run appends
  nothing when the binding is shadowed, and otherwise one diagnostic for each flagged
  reference, in the order of the references. So a second run on the same scope and
  allow-list appends the same diagnostics in the same order after those of the first.
  The same holds for the handler that \<^verbatim>\<open>create\<close> builds, whenever the options give an
  array as the allow-list, as all options that validate do.
\<close>

theorem analysis_deterministic:
  "(let added = (\<lambda>allowed.
          if shadowed sc then []
          else map (\<lambda>r. \<lparr>node = ident_parent r, d_loc = loc (ident_parent r),
                 messageId = ''unexpected'',
                 propertyName = getStaticPropertyName (Some (ident_parent r))\<rparr>)
               (filter (isMemberAccessExceptAllowed allowed) (sails_references sc)))
    in Program_exit allowed sc reported = reported @ added allowed
     \<and> Program_exit allowed sc (Program_exit allowed sc reported)
         = reported @ added allowed @ added allowed
     \<and> (create_allowed opts = JArray vs \<longrightarrow>
          create opts sc reported = Inr (reported @ added (allowed_strings vs)) \<and>
          create opts sc (reported @ added (allowed_strings vs))
            = Inr (reported @ added (allowed_strings vs) @ added (allowed_strings vs))))"
proof -
  define added where "added = (\<lambda>allowed.
          if shadowed sc then []
          else map (\<lambda>r. \<lparr>node = ident_parent r, d_loc = loc (ident_parent r),
                 messageId = ''unexpected'',
                 propertyName = getStaticPropertyName (Some (ident_parent r))\<rparr>)
               (filter (isMemberAccessExceptAllowed allowed) (sails_references sc)))"
  have one: "Program_exit a sc r = r @ added a" for a r
    by (simp add: Program_exit_def fold_report_map added_def)
  have two: "Program_exit a sc (Program_exit a sc r) = r @ added a @ added a" for a r
    by (simp add: one)
  have handler: "create opts sc r = Inr (r @ added (allowed_strings vs))"
    if "create_allowed opts = JArray vs" for r
    using that by (simp add: create_def Program_exit_json_array one)
  show ?thesis
    unfolding Let_def added_def [symmetric]
    using one [of allowed reported] two [of allowed reported]
      handler [of reported] handler [of "reported @ added (allowed_strings vs)"]
    by simp
qed

theorem analysis_deterministic_witness:
  "create_allowed [JObject [(''allow'', JArray [JString ''config''])]] = JArray [JString ''config'']
   \<and> Program_exit [] (global_scope [use (Identifier 3 l0 ''hook'') False])
     (Program_exit [] (global_scope [use (Identifier 3 l0 ''hook'') False]) []) =
     [\<lparr>node = access (Identifier 3 l0 ''hook'') False, d_loc = l0, messageId = ''unexpected'',
        propertyName = Some ''hook''\<rparr>,
      \<lparr>node = access (Identifier 3 l0 ''hook'') False, d_loc = l0, messageId = ''unexpected'',
        propertyName = Some ''hook''\<rparr>]
   \<and> create [JObject [(''allow'', JArray [JString ''config''])]]
       (global_scope [use (Identifier 3 l0 ''hook'') False]) [] =
     Inr [\<lparr>node = access (Identifier 3 l0 ''hook'') False, d_loc = l0,
            messageId = ''unexpected'', propertyName = Some ''hook''\<rparr>]"
proof -
  let ?sc = "global_scope [use (Identifier 3 l0 ''hook'') False]"
  let ?opts = "[JObject [(''allow'', JArray [JString ''config''])]]"
  have a: "create_allowed ?opts = JArray [JString ''config'']"
    by (simp add: create_allowed_def create_options_def)
  have s: "\<not> shadowed ?sc" by (simp add: eval_defs)
  have f: "filter (isMemberAccessExceptAllowed []) (sails_references ?sc)
      = [use (Identifier 3 l0 ''hook'') False]"
    by (simp add: eval_defs)
  have g: "filter (isMemberAccessExceptAllowed [''config'']) (sails_references ?sc)
      = [use (Identifier 3 l0 ''hook'') False]"
    by (simp add: eval_defs)
  have c: "allowed_strings [JString ''config''] = [''config'']"
    by (simp add: allowed_strings_def)
  have d: "map (\<lambda>r. \<lparr>node = ident_parent r, d_loc = loc (ident_parent r),
                 messageId = ''unexpected'',
                 propertyName = getStaticPropertyName (Some (ident_parent r))\<rparr>)
             [use (Identifier 3 l0 ''hook'') False]
      = [\<lparr>node = access (Identifier 3 l0 ''hook'') False, d_loc = l0,
           messageId = ''unexpected'', propertyName = Some ''hook''\<rparr>]"
    by (simp add: use_def access_def)
  show ?thesis
    using a s analysis_deterministic [of ?sc "[]" "[]" ?opts "[JString ''config'']"]
    unfolding Let_def c f g d
    by auto
qed

subsection \<open>C9: the diagnostic of a flagged reference\<close>

text \<open>
  C9, as the rule reports. When the binding is not shadowed, the run adds one diagnostic
  for each flagged reference, in the order of the references: its node is the parent of
  the identifier, its location is the location of that node, its message id is
  \<^verbatim>\<open>unexpected\<close>, and its property name is what the extractor returns for the parent, that
  is the extracted name, or \<^verbatim>\<open>null\<close> when the name is indeterminate. The parent of a
  flagged reference is a member access with the identifier as its object, and the message
  of \<^verbatim>\<open>unexpected\<close> is \<^verbatim>\<open>Unexpected sails.{{propertyName}}\<close>.
\<close>

theorem report_payload:
  assumes "\<not> shadowed sc"
  shows "Program_exit allowed sc reported =
           reported @ map (\<lambda>r. \<lparr>node = ident_parent r, d_loc = loc (ident_parent r),
               messageId = ''unexpected'',
               propertyName = getStaticPropertyName (Some (ident_parent r))\<rparr>)
             (filter (isMemberAccessExceptAllowed allowed) (sails_references sc))
       \<and> (\<forall>r \<in> set (filter (isMemberAccessExceptAllowed allowed) (sails_references sc)).
             \<exists>i l obj k c. ident_parent r = MemberExpression i l obj k c
               \<and> nid obj = nid (ident r))
       \<and> map_of messages ''unexpected'' = Some ''Unexpected sails.{{propertyName}}''"
proof -
  have "\<exists>i l obj k c. ident_parent r = MemberExpression i l obj k c \<and> nid obj = nid (ident r)"
    if "isMemberAccessExceptAllowed allowed r" for r
    using that by (cases "ident_parent r") (simp_all add: isMemberAccessExceptAllowed_def Let_def)
  then show ?thesis
    using assms by (simp add: Program_exit_def fold_report_map messages_def)
qed

theorem report_payload_witness:
  "\<not> shadowed (module_scope [] [use (Identifier 3 l0 ''hook'') False])
   \<and> Program_exit [] (module_scope [] [use (Identifier 3 l0 ''hook'') False]) [] =
       [\<lparr>node = access (Identifier 3 l0 ''hook'') False, d_loc = l0, messageId = ''unexpected'',
          propertyName = Some ''hook''\<rparr>]"
proof -
  have a: "\<not> shadowed (module_scope [] [use (Identifier 3 l0 ''hook'') False])"
    by (simp add: eval_defs)
  have b: "filter (isMemberAccessExceptAllowed [])
        (sails_references (module_scope [] [use (Identifier 3 l0 ''hook'') False]))
      = [use (Identifier 3 l0 ''hook'') False]"
    by (simp add: eval_defs)
  show ?thesis
    using a report_payload [OF a, of "[]" "[]"] unfolding b
    by (simp add: use_def access_def)
qed

text \<open>
  C9 as it is stated gives the property name the rendering of the node when the name is
  indeterminate. For \<^verbatim>\<open>sails[key]\<close> the diagnostic carries \<^verbatim>\<open>null\<close>, not a text.
\<close>

theorem report_payload_null_when_indeterminate:
  "Program_exit [] (global_scope [use (Identifier 3 l0 ''key'') True]) [] =
     [\<lparr>node = access (Identifier 3 l0 ''key'') True, d_loc = l0, messageId = ''unexpected'',
        propertyName = None\<rparr>]"
  by (simp add: eval_defs)

subsection \<open>C10: the empty name is never allowed\<close>

text \<open>
  C10. When the binding is not shadowed and a reference to \<^verbatim>\<open>sails\<close> is the object of a
  member access whose extracted name is the empty string, the access is not allowed and
  the reference adds exactly one diagnostic, carrying the empty name, whatever the
  allow-list holds, the empty string included.
\<close>

theorem empty_name_never_allowed:
  assumes "\<not> shadowed sc"
    and "sails_references sc = rs1 @ r # rs2"
    and "ident_parent r = MemberExpression i l obj k c"
    and "nid obj = nid (ident r)"
    and "getStaticPropertyName (Some (ident_parent r)) = Some ''''"
  shows "\<not> isAllowed allowed (ident_parent r)
       \<and> Program_exit allowed sc reported =
           reports allowed rs1 reported
           @ [\<lparr>node = ident_parent r, d_loc = l, messageId = ''unexpected'',
                propertyName = Some ''''\<rparr>]
           @ reports allowed rs2 []"
proof -
  have na: "\<not> isAllowed allowed (ident_parent r)"
    using assms(5) by (simp add: isAllowed_def)
  then have flagged: "isMemberAccessExceptAllowed allowed r"
    using assms(3,4) by (simp add: isMemberAccessExceptAllowed_def Let_def)
  have "reports allowed [r] [] =
      [\<lparr>node = ident_parent r, d_loc = l, messageId = ''unexpected'',
         propertyName = Some ''''\<rparr>]"
    using flagged assms(3,5) by (simp add: report_def Let_def)
  then show ?thesis
    using na assms(1,2) reports_split [of allowed rs1 r rs2 reported]
    by (simp add: Program_exit_def)
qed

theorem empty_name_never_allowed_witness:
  "\<not> shadowed (global_scope [use (TemplateLiteral 3 l0 [] [\<lparr>raw = '''', cooked = ''''\<rparr>]) True])
   \<and> getStaticPropertyName
         (Some (access (TemplateLiteral 3 l0 [] [\<lparr>raw = '''', cooked = ''''\<rparr>]) True))
       = Some ''''
   \<and> \<not> isAllowed [''''] (access (TemplateLiteral 3 l0 [] [\<lparr>raw = '''', cooked = ''''\<rparr>]) True)
   \<and> Program_exit ['''']
         (global_scope [use (TemplateLiteral 3 l0 [] [\<lparr>raw = '''', cooked = ''''\<rparr>]) True]) [] =
       [\<lparr>node = access (TemplateLiteral 3 l0 [] [\<lparr>raw = '''', cooked = ''''\<rparr>]) True,
          d_loc = l0, messageId = ''unexpected'', propertyName = Some ''''\<rparr>]"
proof -
  let ?k = "TemplateLiteral 3 l0 [] [\<lparr>raw = '''', cooked = ''''\<rparr>]"
  let ?r = "use ?k True"
  have a: "\<not> shadowed (global_scope [?r])" by (simp add: eval_defs)
  have b: "sails_references (global_scope [?r]) = [] @ ?r # []" by (simp add: eval_defs)
  have c: "ident_parent ?r = MemberExpression 2 l0 sails_id ?k True"
    by (simp add: use_def access_def)
  have d: "nid sails_id = nid (ident ?r)" by (simp add: use_def)
  have e: "getStaticPropertyName (Some (ident_parent ?r)) = Some ''''"
    by (simp add: use_def access_def)
  show ?thesis
    using a e empty_name_never_allowed [OF a b c d e, of "['''']" "[]"]
    by (simp add: use_def)
qed

end
